theory Spec2Isabelle
  imports Main
begin

section \<open>Text search\<close>

text \<open>
  Both regular expressions of \<open>generateMathML\<close> are built from literal delimiters and
  the lazy wildcard \<open>[\s\S]*?\<close>.  A lazy wildcard followed by a literal stops at the
  first occurrence of that literal, so one search function serves them all:
  \<open>split_first pat s\<close> cuts \<open>s\<close> at the leftmost occurrence of \<open>pat\<close> and returns
  the text before it and the text after it.  A text is a list of characters; the
  patterns compare characters with ASCII literals only, so the width of a character
  plays no part.
\<close>

fun split_first :: "string \<Rightarrow> string \<Rightarrow> (string \<times> string) option" where
  "split_first pat [] = (if pat = [] then Some ([], []) else None)"
| "split_first pat (c # cs) =
     (if take (length pat) (c # cs) = pat then Some ([], drop (length pat) (c # cs))
      else map_option (\<lambda>(b, a). (c # b, a)) (split_first pat cs))"

section \<open>The scanner: \<open>latexRegex\<close> and its \<open>exec\<close> loop\<close>

text \<open>
  \<^verbatim>\<open>const latexRegex = /\$\$([\s\S]*?)\$\$|\$((?!\$)[\s\S]*?)\$/g;\<close>

  A match has two capture groups; the one of the alternative that did not take part is
  \<open>undefined\<close> (\<open>None\<close>).
\<close>

record regex_match =
  group1 :: "string option"
  group2 :: "string option"

text \<open>First alternative, tried at the head of \<open>s\<close>: \<open>$$\<close>, lazy content, \<open>$$\<close>.
  The result carries the text that follows the match.\<close>

definition match_block :: "string \<Rightarrow> (regex_match \<times> string) option" where
  "match_block s =
     (if take 2 s = ''$$'' then
        (case split_first ''$$'' (drop 2 s) of
           None \<Rightarrow> None
         | Some (c, rest) \<Rightarrow> Some (\<lparr>group1 = Some c, group2 = None\<rparr>, rest))
      else None)"

text \<open>Second alternative: \<open>$\<close>, the lookahead \<open>(?!\$)\<close>, lazy content, \<open>$\<close>.\<close>

definition match_inline :: "string \<Rightarrow> (regex_match \<times> string) option" where
  "match_inline s =
     (if take 1 s = ''$'' \<and> take 1 (drop 1 s) \<noteq> ''$'' then
        (case split_first ''$'' (drop 1 s) of
           None \<Rightarrow> None
         | Some (c, rest) \<Rightarrow> Some (\<lparr>group1 = None, group2 = Some c\<rparr>, rest))
      else None)"

text \<open>The alternation tries the block form first.\<close>

definition match_here :: "string \<Rightarrow> (regex_match \<times> string) option" where
  "match_here s = (case match_block s of Some r \<Rightarrow> Some r | None \<Rightarrow> match_inline s)"

text \<open>
  \<open>latexRegex.exec\<close> on the text from \<open>lastIndex\<close> on: the leftmost position where
  the pattern matches.  The second component is the text from the new \<open>lastIndex\<close>.
\<close>

fun exec :: "string \<Rightarrow> (regex_match \<times> string) option" where
  "exec [] = None"
| "exec (c # cs) =
     (case match_here (c # cs) of Some r \<Rightarrow> Some r | None \<Rightarrow> exec cs)"

lemma split_first_length:
  "split_first pat s = Some (b, a) \<Longrightarrow> length b + length pat + length a = length s"
proof (induction s arbitrary: b)
  case Nil
  then show ?case by (simp split: if_splits)
next
  case (Cons c cs)
  show ?case
  proof (cases "take (length pat) (c # cs) = pat")
    case True
    with Cons.prems have b: "b = []" and a: "a = drop (length pat) (c # cs)" by simp_all
    from True have "length (take (length pat) (c # cs)) = length pat" by simp
    then have "length pat \<le> length (c # cs)" by simp
    with a b show ?thesis by simp
  next
    case False
    with Cons.prems obtain b' where "split_first pat cs = Some (b', a)" and "b = c # b'"
      by auto
    with Cons.IH show ?thesis by fastforce
  qed
qed

lemma match_here_shorter: "match_here s = Some (m, rest) \<Longrightarrow> length rest < length s"
  by (auto simp: match_here_def match_block_def match_inline_def
           split: option.splits if_splits dest!: split_first_length)

lemma exec_shorter: "exec s = Some (m, rest) \<Longrightarrow> length rest < length s"
proof (induction s)
  case Nil
  then show ?case by simp
next
  case (Cons c cs)
  then show ?case
    by (cases "match_here (c # cs)") (auto dest: match_here_shorter)
qed

text \<open>All matches of one run of the \<open>while ((match = latexRegex.exec(markdown)) !== null)\<close>
  loop, in the order the loop meets them.\<close>

function scan :: "string \<Rightarrow> regex_match list" where
  "scan s = (case exec s of None \<Rightarrow> [] | Some (m, rest) \<Rightarrow> m # scan rest)"
  by pat_completeness auto
termination
  by (relation "measure length") (auto dest: exec_shorter)

text \<open>
  \<^verbatim>\<open>const latex = match[1] || match[2];  const isBlock = !!match[1];\<close>

  A capture group is a string or \<open>undefined\<close>; the empty string and \<open>undefined\<close>
  are both falsy.
\<close>

definition truthy :: "string option \<Rightarrow> bool" where
  "truthy v = (case v of None \<Rightarrow> False | Some s \<Rightarrow> s \<noteq> [])"

definition js_or :: "string option \<Rightarrow> string option \<Rightarrow> string option" where
  "js_or a b = (if truthy a then a else b)"

record span =
  latex :: "string option"
  isBlock :: bool

definition span_of :: "regex_match \<Rightarrow> span" where
  "span_of m = \<lparr>latex = js_or (group1 m) (group2 m), isBlock = truthy (group1 m)\<rparr>"

section \<open>The markup tree\<close>

text \<open>
  The DOM that \<open>DOMParser\<close> builds: an element has a tag name, attributes and an
  ordered list of child nodes; every other kind of node (text, comment, CDATA) has no
  children and no tag, and is a \<open>Text\<close> here.  \<open>mathRoot\<close>, the document element, is
  an \<open>element\<close> record of its own, since \<open>getElementsByTagName\<close> looks at its
  descendants only.
\<close>

datatype node =
    Element string "(string \<times> string) list" "node list"
  | Text string

record element =
  tagName :: string
  attributes :: "(string \<times> string) list"
  childNodes :: "node list"

text \<open>The live collection \<open>getElementsByTagName(t)\<close> over the forest below an
  element: the descendants tagged \<open>t\<close>, in document order.\<close>

fun getElementsByTagName :: "string \<Rightarrow> node list \<Rightarrow> node list" where
  "getElementsByTagName t [] = []"
| "getElementsByTagName t (Text s # ns) = getElementsByTagName t ns"
| "getElementsByTagName t (Element g as cs # ns) =
     (if g = t then [Element g as cs] else [])
       @ getElementsByTagName t cs @ getElementsByTagName t ns"

text \<open>\<^verbatim>\<open>annotations[0].parentNode?.removeChild(annotations[0])\<close>:
  the first element tagged \<open>t\<close> in document order leaves the tree, with its subtree.\<close>

fun remove_first :: "string \<Rightarrow> node list \<Rightarrow> node list" where
  "remove_first t [] = []"
| "remove_first t (Text s # ns) = Text s # remove_first t ns"
| "remove_first t (Element g as cs # ns) =
     (if g = t then ns
      else if getElementsByTagName t cs \<noteq> [] then Element g as (remove_first t cs) # ns
      else Element g as cs # remove_first t ns)"

text \<open>\<^verbatim>\<open>while(elem.firstChild) parent.insertBefore(elem.firstChild, elem);
  parent.removeChild(elem);\<close> for \<open>elem\<close> the first element tagged \<open>t\<close>: its
  child nodes take its place, in order.  (\<open>parent\<close> is never null: \<open>elem\<close> is a
  descendant of \<open>mathRoot\<close>.)\<close>

fun unwrap_first :: "string \<Rightarrow> node list \<Rightarrow> node list" where
  "unwrap_first t [] = []"
| "unwrap_first t (Text s # ns) = Text s # unwrap_first t ns"
| "unwrap_first t (Element g as cs # ns) =
     (if g = t then cs @ ns
      else if getElementsByTagName t cs \<noteq> [] then Element g as (unwrap_first t cs) # ns
      else Element g as cs # unwrap_first t ns)"

lemma remove_first_fewer:
  "getElementsByTagName t ns \<noteq> [] \<Longrightarrow>
   length (getElementsByTagName t (remove_first t ns)) < length (getElementsByTagName t ns)"
  by (induction t ns rule: remove_first.induct) auto

lemma getElementsByTagName_append:
  "getElementsByTagName t (xs @ ys) = getElementsByTagName t xs @ getElementsByTagName t ys"
  by (induction t xs rule: getElementsByTagName.induct) auto

lemma unwrap_first_fewer:
  "getElementsByTagName t ns \<noteq> [] \<Longrightarrow>
   length (getElementsByTagName t (unwrap_first t ns)) < length (getElementsByTagName t ns)"
  by (induction t ns rule: unwrap_first.induct) (auto simp: getElementsByTagName_append)

text \<open>\<^verbatim>\<open>while(annotations.length > 0) { ... }\<close>\<close>

function remove_loop :: "string \<Rightarrow> node list \<Rightarrow> node list" where
  "remove_loop t ns =
     (if length (getElementsByTagName t ns) > 0 then remove_loop t (remove_first t ns) else ns)"
  by pat_completeness auto
termination
  by (relation "measure (\<lambda>(t, ns). length (getElementsByTagName t ns))")
     (auto intro: remove_first_fewer)

text \<open>\<^verbatim>\<open>while(semantics.length > 0) { ... }\<close>\<close>

function unwrap_loop :: "string \<Rightarrow> node list \<Rightarrow> node list" where
  "unwrap_loop t ns =
     (if length (getElementsByTagName t ns) > 0 then unwrap_loop t (unwrap_first t ns) else ns)"
  by pat_completeness auto
termination
  by (relation "measure (\<lambda>(t, ns). length (getElementsByTagName t ns))")
     (auto intro: unwrap_first_fewer)

text \<open>\<open>mathRoot.children\<close>: the child nodes that are elements.\<close>

fun is_element :: "node \<Rightarrow> bool" where
  "is_element (Element g as cs) = True"
| "is_element (Text s) = False"

definition children :: "node list \<Rightarrow> node list" where
  "children ns = filter is_element ns"

text \<open>\<^verbatim>\<open>while (mrow.firstChild) mathRoot.insertBefore(mrow.firstChild, mrow);
  mathRoot.removeChild(mrow);\<close> for \<open>mrow\<close> the first element child.\<close>

fun splice_first_child :: "node list \<Rightarrow> node list" where
  "splice_first_child [] = []"
| "splice_first_child (Text s # ns) = Text s # splice_first_child ns"
| "splice_first_child (Element g as cs # ns) = cs @ ns"

text \<open>\<^verbatim>\<open>if (mathRoot.children.length === 1 && mathRoot.children[0].tagName === 'mrow')\<close>\<close>

definition unwrap_top_mrow :: "node list \<Rightarrow> node list" where
  "unwrap_top_mrow ns =
     (case children ns of
        [Element g as cs] \<Rightarrow> if g = ''mrow'' then splice_first_child ns else ns
      | _ \<Rightarrow> ns)"

text \<open>The three rewriting steps of \<open>generateMathML\<close> on \<open>mathRoot\<close>, in the order
  of the source.\<close>

definition clean :: "element \<Rightarrow> element" where
  "clean mathRoot =
     mathRoot\<lparr>childNodes :=
       unwrap_top_mrow (unwrap_loop ''semantics'' (remove_loop ''annotation'' (childNodes mathRoot)))\<rparr>"

section \<open>\<open>generateMathML\<close>\<close>

text \<open>\<^verbatim>\<open>rawRender.match(/<math[\s\S]*?<\/math>/)\<close>: from the first \<open><math\<close> to the
  first \<open></math>\<close> after it; \<open>None\<close> is \<open>null\<close>.\<close>

definition math_match :: "string \<Rightarrow> string option" where
  "math_match rawRender =
     (case split_first ''<math'' rawRender of
        None \<Rightarrow> None
      | Some (pre, r) \<Rightarrow>
          (case split_first ''</math>'' r of
             None \<Rightarrow> None
           | Some (body, post) \<Rightarrow> Some (''<math'' @ body @ ''</math>'')))"

text \<open>
  The browser and the typesetting library are the environment of the function:
  \<^item> \<open>katex\<close> is \<open>window.katex\<close>: \<open>None\<close> when the library is not loaded, else its
    \<open>renderToString\<close>, which returns markup (\<open>Inr\<close>) or throws (\<open>Inl\<close>);
  \<^item> \<open>parseFromString\<close> is \<open>DOMParser.parseFromString(_, "text/xml")\<close> followed by
    \<open>documentElement\<close>;
  \<^item> \<open>serializeToString\<close> is \<open>XMLSerializer.serializeToString\<close>.
  The state of the loop is the variables \<open>output\<close> and \<open>count\<close>, and the console,
  which \<open>console.warn\<close> extends.
\<close>

type_synonym 'e renderer = "string option \<Rightarrow> bool \<Rightarrow> 'e + string"

record 'e state =
  "output" :: string
  count :: nat
  console :: "(string \<times> 'e) list"

definition loop_body ::
  "'e renderer \<Rightarrow> (string \<Rightarrow> element) \<Rightarrow> (element \<Rightarrow> string) \<Rightarrow> regex_match \<Rightarrow> 'e state \<Rightarrow> 'e state" where
  "loop_body renderToString parseFromString serializeToString m st =
     (let sp = span_of m in
      case renderToString (latex sp) (isBlock sp) of
        Inl e \<Rightarrow> st\<lparr>console := console st @ [(''Error converting equation to MathML'', e)]\<rparr>
      | Inr rawRender \<Rightarrow>
          (case math_match rawRender of
             None \<Rightarrow> st
           | Some mathMatch \<Rightarrow>
               (let mathRoot = clean (parseFromString mathMatch);
                    cleanMathML = serializeToString mathRoot
                in st\<lparr>output := (if count st > 0 then output st @ ''\<newline>\<newline>'' else output st) @ cleanMathML,
                      count := count st + 1\<rparr>)))"

function while_loop ::
  "'e renderer \<Rightarrow> (string \<Rightarrow> element) \<Rightarrow> (element \<Rightarrow> string) \<Rightarrow> string \<Rightarrow> 'e state \<Rightarrow> 'e state" where
  "while_loop r p z s st =
     (case exec s of
        None \<Rightarrow> st
      | Some (m, rest) \<Rightarrow> while_loop r p z rest (loop_body r p z m st))"
  by pat_completeness auto
termination
  by (relation "measure (\<lambda>(r, p, z, s, st). length s)") (auto dest: exec_shorter)

text \<open>The result is the returned string and what was written to the console.\<close>

definition generateMathML ::
  "'e renderer option \<Rightarrow> (string \<Rightarrow> element) \<Rightarrow> (element \<Rightarrow> string) \<Rightarrow> string
     \<Rightarrow> string \<times> (string \<times> 'e) list" where
  "generateMathML katex parseFromString serializeToString markdown =
     (case katex of
        None \<Rightarrow> (''KaTeX library not found.'', [])
      | Some renderToString \<Rightarrow>
          (let st = while_loop renderToString parseFromString serializeToString markdown
                      \<lparr>output = [], count = 0, console = []\<rparr>
           in (if output st \<noteq> [] then output st else ''No mathematical formulas detected.'',
               console st)))"

section \<open>The notions of the specification\<close>

text \<open>
  The specification speaks of a normalizer that turns one span into a fragment or a
  failure, of fragments joined by blank lines, and of rewrite rules A and B as
  transformations of the whole tree.  These definitions follow its words; the lemmas
  below relate them to the loops of the source.
\<close>

datatype 'e normalized = Fragment string | ExtractionFailure | RenderFailure 'e

definition normalize_span ::
  "'e renderer \<Rightarrow> (string \<Rightarrow> element) \<Rightarrow> (element \<Rightarrow> string) \<Rightarrow> span \<Rightarrow> 'e normalized" where
  "normalize_span renderer parseFromString serializeToString sp =
     (case renderer (latex sp) (isBlock sp) of
        Inl e \<Rightarrow> RenderFailure e
      | Inr raw \<Rightarrow>
          (case math_match raw of
             None \<Rightarrow> ExtractionFailure
           | Some m \<Rightarrow> Fragment (serializeToString (clean (parseFromString m)))))"

fun fragments :: "'e normalized list \<Rightarrow> string list" where
  "fragments [] = []"
| "fragments (Fragment f # rs) = f # fragments rs"
| "fragments (ExtractionFailure # rs) = fragments rs"
| "fragments (RenderFailure e # rs) = fragments rs"

fun render_failures :: "'e normalized list \<Rightarrow> 'e list" where
  "render_failures [] = []"
| "render_failures (Fragment f # rs) = render_failures rs"
| "render_failures (ExtractionFailure # rs) = render_failures rs"
| "render_failures (RenderFailure e # rs) = e # render_failures rs"

text \<open>Fragments joined with one blank line between consecutive ones.\<close>

fun join :: "string list \<Rightarrow> string" where
  "join [] = []"
| "join [f] = f"
| "join (f # g # fs) = f @ ''\<newline>\<newline>'' @ join (g # fs)"



section \<open>Test doubles\<close>

text \<open>
  The specification asks for a renderer that can be replaced by a test double, and its
  scenarios use one that echoes the payload inside the markup shape of the typesetting
  library.  The doubles below stand in for the library and for the browser's parser and
  serializer where a property is run on a concrete document.  They handle markup
  without attributes, which is all the scenarios need.
\<close>

text \<open>Scenario A: the payload echoed as
  \<open><math><semantics><mrow><mi>PAYLOAD</mi></mrow><annotation>PAYLOAD</annotation></semantics></math>\<close>,
  inside a wrapper element.  A call without a payload throws.\<close>

fun echo_renderer :: "string renderer" where
  "echo_renderer None displayMode = Inl ''TypeError''"
| "echo_renderer (Some s) displayMode =
     Inr (''<span><math><semantics><mrow><mi>'' @ s @ ''</mi></mrow><annotation>'' @ s
          @ ''</annotation></semantics></math></span>'')"

text \<open>Scenarios C and D: the renderer throws on the payload \<open>b\<close>.\<close>

definition failing_renderer :: "string renderer" where
  "failing_renderer l displayMode =
     (if l = Some ''b'' then Inl ''ParseError'' else echo_renderer l displayMode)"

text \<open>A renderer that succeeds with markup that holds no \<open><math>\<close> element.\<close>

definition no_math_renderer :: "string renderer" where
  "no_math_renderer l displayMode = Inr ''<span>error</span>''"

text \<open>A renderer with both kinds of failure: no \<open><math>\<close> element for the payload
  \<open>n\<close>, an exception for the payload \<open>b\<close>.\<close>

definition mixed_renderer :: "string renderer" where
  "mixed_renderer l displayMode =
     (if l = Some ''n'' then no_math_renderer l displayMode else failing_renderer l displayMode)"

datatype token = Open string | Close string | Chars string

definition tag_token :: "string \<Rightarrow> token" where
  "tag_token t = (if take 1 t = ''/'' then Close (drop 1 t) else Open t)"

definition chars_token :: "string \<Rightarrow> token list" where
  "chars_token acc = (if acc = [] then [] else [Chars (rev acc)])"

text \<open>\<open>lex s in_tag acc\<close>: the tokens of \<open>s\<close>; \<open>acc\<close> holds, reversed, the characters
  read since the last angle bracket.\<close>

fun lex :: "string \<Rightarrow> bool \<Rightarrow> string \<Rightarrow> token list" where
  "lex [] in_tag acc = chars_token acc"
| "lex (c # cs) False acc =
     (if c = CHR ''<'' then chars_token acc @ lex cs True [] else lex cs False (c # acc))"
| "lex (c # cs) True acc =
     (if c = CHR ''>'' then tag_token (rev acc) # lex cs False [] else lex cs True (c # acc))"

text \<open>\<open>build ts stack cur\<close>: \<open>cur\<close> holds, reversed, the nodes read so far below the
  innermost open element; \<open>stack\<close> holds the open elements with their earlier
  siblings.\<close>

fun build :: "token list \<Rightarrow> (string \<times> node list) list \<Rightarrow> node list \<Rightarrow> node list" where
  "build [] stack cur = rev cur"
| "build (Chars s # ts) stack cur = build ts stack (Text s # cur)"
| "build (Open g # ts) stack cur = build ts ((g, cur) # stack) []"
| "build (Close g # ts) [] cur = rev cur"
| "build (Close g # ts) ((g', siblings) # stack) cur =
     build ts stack (Element g' [] (rev cur) # siblings)"

definition parse_double :: "string \<Rightarrow> element" where
  "parse_double s =
     (case build (lex s False []) [] [] of
        [Element g as cs] \<Rightarrow> \<lparr>tagName = g, attributes = as, childNodes = cs\<rparr>
      | _ \<Rightarrow> \<lparr>tagName = ''parsererror'', attributes = [], childNodes = []\<rparr>)"

fun serialize_nodes :: "node list \<Rightarrow> string" where
  "serialize_nodes [] = []"
| "serialize_nodes (Text s # ns) = s @ serialize_nodes ns"
| "serialize_nodes (Element g as cs # ns) =
     ''<'' @ g @ ''>'' @ serialize_nodes cs @ ''</'' @ g @ ''>'' @ serialize_nodes ns"

definition serialize_double :: "element \<Rightarrow> string" where
  "serialize_double e =
     ''<'' @ tagName e @ ''>'' @ serialize_nodes (childNodes e) @ ''</'' @ tagName e @ ''>''"

section \<open>Properties of the scanner\<close>

lemma split_first_sound: "split_first pat s = Some (b, a) \<Longrightarrow> s = b @ pat @ a"
proof (induction s arbitrary: b)
  case Nil
  then show ?case by (simp split: if_splits)
next
  case (Cons c cs)
  show ?case
  proof (cases "take (length pat) (c # cs) = pat")
    case True
    with Cons.prems have "b = []" and "a = drop (length pat) (c # cs)" by simp_all
    with True show ?thesis by (metis append_Nil append_take_drop_id)
  next
    case False
    with Cons.prems obtain b' where "split_first pat cs = Some (b', a)" and "b = c # b'"
      by auto
    with Cons.IH show ?thesis by simp
  qed
qed

lemma split_first_char_notin: "split_first [d] s = Some (b, a) \<Longrightarrow> d \<notin> set b"
  by (induction s arbitrary: b) (auto split: if_splits)

lemma split_first_char: "d \<notin> set c \<Longrightarrow> split_first [d] (c @ d # rest) = Some (c, rest)"
  by (induction c) auto

lemma split_first_dd:
  "d \<notin> set c \<Longrightarrow> split_first [d, d] (c @ d # d # rest) = Some (c, rest)"
  by (induction c) (auto simp: take_Suc_conv_app_nth split: list.splits)

lemma take_prefix: "(take (length p) s = p) = (\<exists>r. s = p @ r)"
  by (metis append_eq_conv_conj append_take_drop_id)

lemma take1_dollar: "(take (Suc 0) s = [d]) = (\<exists>r. s = d # r)"
  using take_prefix [of "[d]" s] by simp

lemma take2_dollar: "(take 2 s = [d, e]) = (\<exists>r. s = d # e # r)"
  using take_prefix [of "[d, e]" s] by (simp add: numeral_2_eq_2)

lemma split_first_none: "pat \<noteq> [] \<Longrightarrow> hd pat \<notin> set s \<Longrightarrow> split_first pat s = None"
proof (induction s)
  case Nil
  then show ?case by simp
next
  case (Cons c cs)
  then have "take (length pat) (c # cs) \<noteq> pat"
    by (cases pat) auto
  with Cons show ?case by simp
qed

lemma match_here_no_dollar: "take 1 s \<noteq> ''$'' \<Longrightarrow> match_here s = None"
  by (auto simp: match_here_def match_block_def match_inline_def take1_dollar take2_dollar
           split: option.splits)

lemma exec_skip: "CHR ''$'' \<notin> set pre \<Longrightarrow> exec (pre @ s) = exec s"
  by (induction pre) (auto simp: match_here_no_dollar)


declare scan.simps [simp del]

lemma exec_block:
  "split_first ''$$'' r = Some (c, rest) \<Longrightarrow>
   exec (''$$'' @ r) = Some (\<lparr>group1 = Some c, group2 = None\<rparr>, rest)"
  by (simp add: match_here_def match_block_def)

lemma scan_block:
  assumes "CHR ''$'' \<notin> set pre" and "CHR ''$'' \<notin> set c"
  shows "scan (pre @ ''$$'' @ c @ ''$$'' @ rest) = \<lparr>group1 = Some c, group2 = None\<rparr> # scan rest"
proof -
  from assms(2) have "split_first ''$$'' (c @ ''$$'' @ rest) = Some (c, rest)"
    using split_first_dd [of "CHR ''$''" c rest] by simp
  then have "exec (''$$'' @ c @ ''$$'' @ rest) = Some (\<lparr>group1 = Some c, group2 = None\<rparr>, rest)"
    by (rule exec_block)
  with exec_skip [OF assms(1), of "''$$'' @ c @ ''$$'' @ rest"]
  have "exec (pre @ ''$$'' @ c @ ''$$'' @ rest) = Some (\<lparr>group1 = Some c, group2 = None\<rparr>, rest)"
    by (rule trans)
  then show ?thesis by (subst scan.simps) simp
qed

lemma match_inline_payload:
  assumes "match_inline s = Some (m, rest)"
  shows "\<exists>c. m = \<lparr>group1 = None, group2 = Some c\<rparr> \<and> c \<noteq> [] \<and> CHR ''$'' \<notin> set c
            \<and> s = ''$'' @ c @ ''$'' @ rest"
proof -
  from assms obtain r c where s: "s = CHR ''$'' # r" and nd: "take 1 r \<noteq> ''$''"
    and sp: "split_first ''$'' r = Some (c, rest)" and m: "m = \<lparr>group1 = None, group2 = Some c\<rparr>"
    by (auto simp: match_inline_def take1_dollar split: if_splits option.splits)
  from sp have r: "r = c @ ''$'' @ rest" by (rule split_first_sound)
  with nd have "c \<noteq> []" by auto
  moreover from sp have "CHR ''$'' \<notin> set c" by (rule split_first_char_notin)
  ultimately show ?thesis using s r m by simp
qed

lemma match_block_payload:
  assumes "match_block s = Some (m, rest)"
  shows "\<exists>c. m = \<lparr>group1 = Some c, group2 = None\<rparr> \<and> s = ''$$'' @ c @ ''$$'' @ rest"
proof -
  from assms obtain r c where s: "s = ''$$'' @ r"
    and sp: "split_first ''$$'' r = Some (c, rest)" and m: "m = \<lparr>group1 = Some c, group2 = None\<rparr>"
    by (auto simp: match_block_def take2_dollar split: if_splits option.splits)
  from sp have "r = c @ ''$$'' @ rest" by (rule split_first_sound)
  with s m show ?thesis by simp
qed

lemma exec_match_here: "exec s = Some (m, rest) \<Longrightarrow> \<exists>s'. match_here s' = Some (m, rest)"
proof (induction s)
  case Nil
  then show ?case by simp
next
  case (Cons c cs)
  then show ?case by (cases "match_here (c # cs)") auto
qed

lemma scan_match_here: "m \<in> set (scan s) \<Longrightarrow> \<exists>s' rest. match_here s' = Some (m, rest)"
proof (induction s rule: scan.induct)
  case (1 s)
  show ?case
  proof (cases "exec s")
    case None
    with "1.prems" show ?thesis by (subst (asm) scan.simps) simp
  next
    case (Some r)
    obtain m' rest where r: "r = (m', rest)" by (cases r)
    with Some "1.prems" have "m = m' \<or> m \<in> set (scan rest)"
      by (subst (asm) scan.simps) simp
    then show ?thesis
    proof
      assume "m = m'"
      with Some r show ?thesis using exec_match_here by blast
    next
      assume "m \<in> set (scan rest)"
      with "1.IH" Some r show ?thesis by blast
    qed
  qed
qed









text \<open>
  C7, at the input \<open>$$$$\<close>.  The block alternative matches with the empty string as
  its payload; the empty string is falsy, so \<open>match[1] || match[2]\<close> is \<open>undefined\<close>
  and \<open>!!match[1]\<close> is false: the span is handed to the renderer without a payload
  and not in display mode.
\<close>

theorem empty_block_span:
  "scan ''$$$$'' = [\<lparr>group1 = Some [], group2 = None\<rparr>]
   \<and> map span_of (scan ''$$$$'') = [\<lparr>latex = None, isBlock = False\<rparr>]"
  by code_simp

text \<open>
  C10.  Every match of the single-dollar alternative has a payload that is not empty
  and holds no dollar sign, and its span carries that payload with \<open>isBlock\<close> false;
  no span at all has the empty string as its payload; the text \<open>$$\<close> alone yields
  no span.
\<close>

theorem inline_payload_nonempty:
  "(\<forall>m \<in> set (scan text). \<forall>s. group2 m = Some s \<longrightarrow>
      s \<noteq> [] \<and> CHR ''$'' \<notin> set s \<and> group1 m = None
      \<and> span_of m = \<lparr>latex = Some s, isBlock = False\<rparr>)
   \<and> (\<forall>m \<in> set (scan text). latex (span_of m) \<noteq> Some [])
   \<and> scan ''$$'' = []"
proof (intro conjI ballI allI impI)
  fix m s
  assume m: "m \<in> set (scan text)" and g: "group2 m = Some s"
  from m obtain s' rest where mh: "match_here s' = Some (m, rest)"
    using scan_match_here by blast
  have "match_inline s' = Some (m, rest)"
  proof (cases "match_block s'")
    case None
    with mh show ?thesis by (simp add: match_here_def)
  next
    case (Some r)
    with mh have "match_block s' = Some (m, rest)" by (simp add: match_here_def)
    with g show ?thesis by (auto dest: match_block_payload)
  qed
  then obtain c where c: "m = \<lparr>group1 = None, group2 = Some c\<rparr>" "c \<noteq> []" "CHR ''$'' \<notin> set c"
    using match_inline_payload by blast
  with g have sc: "s = c" by simp
  from c sc show "s \<noteq> []" by simp
  from c sc show "CHR ''$'' \<notin> set s" by simp
  from c show "group1 m = None" by simp
  from c sc show "span_of m = \<lparr>latex = Some s, isBlock = False\<rparr>"
    by (simp add: span_of_def js_or_def truthy_def)
next
  fix m
  assume m: "m \<in> set (scan text)"
  from m obtain s' rest where mh: "match_here s' = Some (m, rest)"
    using scan_match_here by blast
  then have "match_block s' = Some (m, rest) \<or> match_inline s' = Some (m, rest)"
    by (auto simp: match_here_def split: option.splits)
  then show "latex (span_of m) \<noteq> Some []"
    by (auto dest!: match_block_payload match_inline_payload
             simp: span_of_def js_or_def truthy_def)
next
  show "scan ''$$'' = []" by code_simp
qed

theorem inline_payload_nonempty_witness:
  "\<lparr>group1 = None, group2 = Some ''x^2''\<rparr> \<in> set (scan ''The value is $x^2$.'')
   \<and> ''x^2'' \<noteq> [] \<and> CHR ''$'' \<notin> set ''x^2''
   \<and> span_of \<lparr>group1 = None, group2 = Some ''x^2''\<rparr> = \<lparr>latex = Some ''x^2'', isBlock = False\<rparr>"
proof -
  have sc: "scan ''The value is $x^2$.'' = [\<lparr>group1 = None, group2 = Some ''x^2''\<rparr>]"
    by code_simp
  from inline_payload_nonempty [of "''The value is $x^2$.''"]
  show ?thesis unfolding sc by simp
qed

section \<open>Properties of the tree rewriting\<close>

declare remove_loop.simps [simp del] unwrap_loop.simps [simp del]




















section \<open>Properties of the assembly\<close>

declare while_loop.simps [simp del]

lemma loop_body_normalize:
  "loop_body r p z m st =
     (case normalize_span r p z (span_of m) of
        Fragment f \<Rightarrow>
          st\<lparr>output := (if count st > 0 then output st @ ''\<newline>\<newline>'' else output st) @ f,
             count := count st + 1\<rparr>
      | ExtractionFailure \<Rightarrow> st
      | RenderFailure e \<Rightarrow>
          st\<lparr>console := console st @ [(''Error converting equation to MathML'', e)]\<rparr>)"
  by (simp add: loop_body_def normalize_span_def Let_def split: sum.splits option.splits)

lemma while_loop_foldl:
  "while_loop r p z s st = foldl (\<lambda>st m. loop_body r p z m st) st (scan s)"
proof (induction r p z s st rule: while_loop.induct)
  case (1 r p z s st)
  show ?case
  proof (cases "exec s")
    case None
    then show ?thesis by (subst while_loop.simps, subst scan.simps) simp
  next
    case (Some a)
    obtain m rest where a: "a = (m, rest)" by (cases a)
    with Some "1.IH" show ?thesis by (subst while_loop.simps, subst scan.simps) simp
  qed
qed

lemma join_Cons: "join (f # fs) = f @ concat (map ((@) ''\<newline>\<newline>'') fs)"
  by (induction fs arbitrary: f) auto

lemma foldl_loop_body:
  "foldl (\<lambda>st m. loop_body r p z m st) st ms =
     st\<lparr>output := output st @
            (if count st > 0
             then concat (map ((@) ''\<newline>\<newline>'') (fragments (map (normalize_span r p z \<circ> span_of) ms)))
             else join (fragments (map (normalize_span r p z \<circ> span_of) ms))),
        count := count st + length (fragments (map (normalize_span r p z \<circ> span_of) ms)),
        console := console st @
            map (Pair ''Error converting equation to MathML'')
                (render_failures (map (normalize_span r p z \<circ> span_of) ms))\<rparr>"
proof (induction ms arbitrary: st)
  case Nil
  then show ?case by simp
next
  case (Cons m ms)
  show ?case
  proof (cases "normalize_span r p z (span_of m)")
    case (Fragment f)
    then have "loop_body r p z m st =
        st\<lparr>output := (if count st > 0 then output st @ ''\<newline>\<newline>'' else output st) @ f,
           count := count st + 1\<rparr>"
      by (simp add: loop_body_normalize)
    with Fragment show ?thesis
      by (simp add: Cons.IH join_Cons)
  next
    case ExtractionFailure
    then have "loop_body r p z m st = st"
      by (simp add: loop_body_normalize)
    with ExtractionFailure show ?thesis by (simp add: Cons.IH)
  next
    case (RenderFailure e)
    then have "loop_body r p z m st =
        st\<lparr>console := console st @ [(''Error converting equation to MathML'', e)]\<rparr>"
      by (simp add: loop_body_normalize)
    with RenderFailure show ?thesis by (simp add: Cons.IH)
  qed
qed

lemma generateMathML_Some:
  "generateMathML (Some r) p z markdown =
     (if join (fragments (map (normalize_span r p z \<circ> span_of) (scan markdown))) \<noteq> []
      then join (fragments (map (normalize_span r p z \<circ> span_of) (scan markdown)))
      else ''No mathematical formulas detected.'',
      map (Pair ''Error converting equation to MathML'')
          (render_failures (map (normalize_span r p z \<circ> span_of) (scan markdown))))"
  by (simp add: generateMathML_def while_loop_foldl foldl_loop_body Let_def)

lemma fragments_append: "fragments (xs @ ys) = fragments xs @ fragments ys"
  by (induction xs rule: fragments.induct) auto

lemma render_failures_append: "render_failures (xs @ ys) = render_failures xs @ render_failures ys"
  by (induction xs rule: render_failures.induct) auto

lemma fragments_Fragment: "fragments (map Fragment fs) = fs"
  by (induction fs) auto

lemma render_failures_Fragment: "render_failures (map Fragment fs) = []"
  by (induction fs) auto

lemma fragments_none: "(\<forall>x \<in> set rs. \<forall>f. x \<noteq> Fragment f) \<Longrightarrow> fragments rs = []"
  by (induction rs rule: fragments.induct) auto

lemma scan_no_dollar: "CHR ''$'' \<notin> set s \<Longrightarrow> scan s = []"
proof -
  assume "CHR ''$'' \<notin> set s"
  then have "exec (s @ []) = exec []" by (rule exec_skip)
  then show ?thesis by (subst scan.simps) simp
qed


text \<open>
  C1.  Let every span of the document be normalized to a fragment.  Then the output is
  these fragments, in the order of the spans in the text, joined with two newline
  characters between consecutive ones, and nothing is written to the console.  (The
  joined text is taken to be non-empty: with no span at all, or one fragment that is the
  empty string, the function returns its sentinel instead; see C3.)
\<close>

theorem fragments_joined_in_order:
  "map (normalize_span r p z \<circ> span_of) (scan markdown) = map Fragment frs \<Longrightarrow>
   join frs \<noteq> [] \<Longrightarrow>
   generateMathML (Some r) p z markdown = (join frs, [])"
  by (simp add: generateMathML_Some fragments_Fragment render_failures_Fragment)

theorem fragments_joined_in_order_witness:
  "map (normalize_span echo_renderer parse_double serialize_double \<circ> span_of)
       (scan ''The value is $x^2$ and $$y$$.'')
     = map Fragment [''<math><mi>x^2</mi></math>'', ''<math><mi>y</mi></math>'']
   \<and> generateMathML (Some echo_renderer) parse_double serialize_double
         ''The value is $x^2$ and $$y$$.''
       = (''<math><mi>x^2</mi></math>\<newline>\<newline><math><mi>y</mi></math>'', [])"
proof -
  have h: "map (normalize_span echo_renderer parse_double serialize_double \<circ> span_of)
             (scan ''The value is $x^2$ and $$y$$.'')
           = map Fragment [''<math><mi>x^2</mi></math>'', ''<math><mi>y</mi></math>'']"
    by code_simp
  have j: "join [''<math><mi>x^2</mi></math>'', ''<math><mi>y</mi></math>''] \<noteq> []"
    by simp
  from fragments_joined_in_order [OF h j] h show ?thesis by simp
qed

text \<open>
  C2.  Let the renderer throw on one span and let every other span be normalized to a
  fragment.  Then the output is the fragments of the other spans, in their order,
  joined with two newline characters between consecutive ones: nothing stands for the
  failed span, and the loop runs on to the spans behind it.  The console holds the one
  warning.  (As in C1, the joined text is taken to be non-empty.)
\<close>

theorem failed_span_omitted:
  "map (normalize_span r p z \<circ> span_of) (scan markdown)
     = map Fragment before @ [RenderFailure e] @ map Fragment after \<Longrightarrow>
   join (before @ after) \<noteq> [] \<Longrightarrow>
   generateMathML (Some r) p z markdown =
     (join (before @ after), [(''Error converting equation to MathML'', e)])"
  by (simp add: generateMathML_Some fragments_append render_failures_append
        fragments_Fragment render_failures_Fragment)

theorem failed_span_omitted_witness:
  "map (normalize_span failing_renderer parse_double serialize_double \<circ> span_of)
       (scan ''$$a$$ $$b$$ $c$'')
     = [Fragment ''<math><mi>a</mi></math>'', RenderFailure ''ParseError'',
        Fragment ''<math><mi>c</mi></math>'']
   \<and> generateMathML (Some failing_renderer) parse_double serialize_double ''$$a$$ $$b$$ $c$''
       = (''<math><mi>a</mi></math>\<newline>\<newline><math><mi>c</mi></math>'',
          [(''Error converting equation to MathML'', ''ParseError'')])"
proof -
  have h: "map (normalize_span failing_renderer parse_double serialize_double \<circ> span_of)
             (scan ''$$a$$ $$b$$ $c$'')
           = map Fragment [''<math><mi>a</mi></math>''] @ [RenderFailure ''ParseError'']
             @ map Fragment [''<math><mi>c</mi></math>'']"
    by code_simp
  have j: "join ([''<math><mi>a</mi></math>''] @ [''<math><mi>c</mi></math>'']) \<noteq> []"
    by simp
  from failed_span_omitted [OF h j] h show ?thesis by simp
qed

text \<open>
  C3.  With the renderer available: if no span of the document is normalized to a
  fragment (there is no span, or each one fails), the function returns the sentinel
  \<open>No mathematical formulas detected.\<close>, which is not the empty string.  A text
  without a dollar sign has no span, and then nothing is logged either.
\<close>

theorem sentinel_when_nothing_succeeds:
  "((\<forall>m \<in> set (scan markdown). \<forall>f. normalize_span r p z (span_of m) \<noteq> Fragment f) \<longrightarrow>
      fst (generateMathML (Some r) p z markdown) = ''No mathematical formulas detected.'')
   \<and> (scan markdown = [] \<longrightarrow>
      generateMathML (Some r) p z markdown = (''No mathematical formulas detected.'', []))
   \<and> (CHR ''$'' \<notin> set markdown \<longrightarrow> scan markdown = [])
   \<and> ''No mathematical formulas detected.'' \<noteq> []"
proof (intro conjI impI)
  assume "\<forall>m \<in> set (scan markdown). \<forall>f. normalize_span r p z (span_of m) \<noteq> Fragment f"
  then have "fragments (map (normalize_span r p z \<circ> span_of) (scan markdown)) = []"
    by (intro fragments_none) simp
  then show "fst (generateMathML (Some r) p z markdown) = ''No mathematical formulas detected.''"
    by (simp add: generateMathML_Some)
next
  assume "scan markdown = []"
  then show "generateMathML (Some r) p z markdown = (''No mathematical formulas detected.'', [])"
    by (simp add: generateMathML_Some)
next
  assume "CHR ''$'' \<notin> set markdown"
  then show "scan markdown = []" by (rule scan_no_dollar)
qed simp

theorem sentinel_when_nothing_succeeds_witness:
  "map (normalize_span failing_renderer parse_double serialize_double \<circ> span_of) (scan ''$b$'')
     = [RenderFailure ''ParseError'']
   \<and> fst (generateMathML (Some failing_renderer) parse_double serialize_double ''$b$'')
       = ''No mathematical formulas detected.''
   \<and> CHR ''$'' \<notin> set ''plain text''
   \<and> scan ''plain text'' = []
   \<and> generateMathML (Some failing_renderer) parse_double serialize_double ''plain text''
       = (''No mathematical formulas detected.'', [])"
proof -
  have sc: "scan ''$b$'' = [\<lparr>group1 = None, group2 = Some ''b''\<rparr>]"
    by code_simp
  have n: "normalize_span failing_renderer parse_double serialize_double
             (span_of \<lparr>group1 = None, group2 = Some ''b''\<rparr>) = RenderFailure ''ParseError''"
    by code_simp
  have nd: "CHR ''$'' \<notin> set ''plain text''" by simp
  from sentinel_when_nothing_succeeds
    [where r = failing_renderer and p = parse_double and z = serialize_double
       and markdown = "''$b$''"]
  have a: "fst (generateMathML (Some failing_renderer) parse_double serialize_double ''$b$'')
      = ''No mathematical formulas detected.''"
    by (simp add: sc n)
  from sentinel_when_nothing_succeeds
    [where r = failing_renderer and p = parse_double and z = serialize_double
       and markdown = "''plain text''"] nd
  have b: "scan ''plain text'' = []"
    and c: "generateMathML (Some failing_renderer) parse_double serialize_double ''plain text''
      = (''No mathematical formulas detected.'', [])"
    by simp_all
  from a b c nd sc n show ?thesis by simp
qed

text \<open>
  C8, as the code has it.  The returned string is the fragments of the spans that were
  normalized, in their order, joined by blank lines (the sentinel when that text is
  empty): a span on which the renderer threw and a span whose rendered markup holds no
  \<open><math>\<close> element are both left out.  The console holds one warning for each span
  on which the renderer threw, with the thrown value, in the order of the spans, and
  nothing else: a span without a \<open><math>\<close> element leaves no trace.
\<close>

theorem failures_excluded_throws_logged:
  "generateMathML (Some r) p z markdown =
     (if join (fragments (map (normalize_span r p z \<circ> span_of) (scan markdown))) \<noteq> []
      then join (fragments (map (normalize_span r p z \<circ> span_of) (scan markdown)))
      else ''No mathematical formulas detected.'',
      map (Pair ''Error converting equation to MathML'')
          (render_failures (map (normalize_span r p z \<circ> span_of) (scan markdown))))"
  by (rule generateMathML_Some)

theorem failures_excluded_throws_logged_witness:
  "map (normalize_span mixed_renderer parse_double serialize_double \<circ> span_of)
       (scan ''$$a$$ $n$ $$b$$ $c$'')
     = [Fragment ''<math><mi>a</mi></math>'', ExtractionFailure, RenderFailure ''ParseError'',
        Fragment ''<math><mi>c</mi></math>'']
   \<and> generateMathML (Some mixed_renderer) parse_double serialize_double ''$$a$$ $n$ $$b$$ $c$''
       = (''<math><mi>a</mi></math>\<newline>\<newline><math><mi>c</mi></math>'',
          [(''Error converting equation to MathML'', ''ParseError'')])"
proof -
  have h: "map (normalize_span mixed_renderer parse_double serialize_double \<circ> span_of)
       (scan ''$$a$$ $n$ $$b$$ $c$'')
     = [Fragment ''<math><mi>a</mi></math>'', ExtractionFailure, RenderFailure ''ParseError'',
        Fragment ''<math><mi>c</mi></math>'']"
    by code_simp
  from failures_excluded_throws_logged
    [where r = mixed_renderer and p = parse_double and z = serialize_double
       and markdown = "''$$a$$ $n$ $$b$$ $c$''"]
  show ?thesis unfolding h by simp
qed

text \<open>
  C8 as stated fails: the one span of \<open>$x$\<close> is not normalized because the markup of
  the renderer holds no \<open><math>\<close> element, and the function returns what it returns
  for a text without any span, with an empty console.
\<close>

theorem extraction_failure_unobservable:
  "normalize_span no_math_renderer parse_double serialize_double
     (span_of \<lparr>group1 = None, group2 = Some ''x''\<rparr>) = ExtractionFailure
   \<and> scan ''$x$'' = [\<lparr>group1 = None, group2 = Some ''x''\<rparr>]
   \<and> generateMathML (Some no_math_renderer) parse_double serialize_double ''$x$''
       = (''No mathematical formulas detected.'', [])
   \<and> generateMathML (Some no_math_renderer) parse_double serialize_double []
       = (''No mathematical formulas detected.'', [])"
  by code_simp

text \<open>
  C9, as the code has it.  Without the typesetting library the function returns the
  text \<open>KaTeX library not found.\<close> as its result; it scans nothing and logs nothing.
\<close>

theorem missing_library_message:
  "generateMathML None p z markdown = (''KaTeX library not found.'', [])"
  by (simp add: generateMathML_def)

text \<open>
  C9 as stated fails: with the library missing, the call on \<open>$x$\<close> returns an
  ordinary string.
\<close>

theorem missing_library_returns_normally:
  "generateMathML (None :: string renderer option) parse_double serialize_double ''$x$''
     = (''KaTeX library not found.'', [])"
  by (simp add: generateMathML_def)

end
